theory Spec2Isabelle
  imports Main
begin

section \<open>Python values shared by the notebooks\<close>

text \<open>
  The notebooks under \<^verbatim>\<open>src/notebook_examples\<close> are linear scripts. Two pieces of
  logic are written in the notebooks themselves and are embedded here:
  \<^item> \<^verbatim>\<open>TwentyNewsDataset.load_data\<close> of the LIME text-classification notebook, and
  \<^item> the custom metric \<^verbatim>\<open>func1\<close> of the ADSEvaluator notebook.

  Everything else the notebooks do is a call into a library (oracle-ads, scikit-learn,
  eli5, lime) whose code is not part of the repository.

  A raised exception is a value: a function that can raise returns
  \<open>py_error + 'a\<close>, with \<open>Inl\<close> carrying the exception.
\<close>

datatype py_error = IndexError | ValueError

section \<open>\<^verbatim>\<open>TwentyNewsDataset\<close>\<close>

subsection \<open>Data\<close>

text \<open>
  \<^verbatim>\<open>fetch_20newsgroups\<close> returns a dictionary-like bunch. \<^verbatim>\<open>load_data\<close> reads three of its
  keys: \<^verbatim>\<open>"data"\<close> (the documents), \<^verbatim>\<open>"target"\<close> (one integer class index per document)
  and \<^verbatim>\<open>"target_names"\<close> (the class names). A document is a Python \<^verbatim>\<open>str\<close>; it is a
  \<open>string\<close> here. All characters of \<^verbatim>\<open>string.punctuation\<close> are ASCII, so deleting them
  acts the same on a text seen as one \<open>char\<close> per Latin-1 character and on its UTF-8
  bytes (no byte of a multi-byte UTF-8 sequence is below 128).
\<close>

record bunch =
  data :: "string list"
  target :: "int list"
  target_names :: "string list"

text \<open>The object holds the fetched bunch in its attribute \<^verbatim>\<open>self.data\<close>.\<close>

record TwentyNewsDataset =
  self_data :: bunch

subsection \<open>Library operations used by \<^verbatim>\<open>load_data\<close>\<close>

text \<open>
  Indexing a Python list with an integer: an index from \<open>0\<close> up to the length reads
  from the front, an index from minus the length up to \<open>-1\<close> reads from the back, any
  other index raises \<^verbatim>\<open>IndexError\<close>.
\<close>

definition getitem :: "'a list \<Rightarrow> int \<Rightarrow> py_error + 'a" where
  "getitem xs i =
     (if 0 \<le> i \<and> i < int (length xs) then Inr (xs ! nat i)
      else if - int (length xs) \<le> i \<and> i < 0 then Inr (xs ! nat (int (length xs) + i))
      else Inl IndexError)"

text \<open>
  \<^verbatim>\<open>string.punctuation\<close> of the Python standard library, a constant the notebook imports:
  the 32 characters \<^verbatim>\<open>!"#$%&'()*+,-./:;<=>?@[\]^_`{|}~\<close>. The double quote, the single
  quote and the backslash are written by their codes.
\<close>

definition punctuation :: string where
  "punctuation =
     ''!'' @ [CHR 0x22] @ ''#$%&'' @ [CHR 0x27] @ ''()*+,-./:;<=>?@['' @ [CHR 0x5C] @ '']^_`{|}~''"

text \<open>
  \<^verbatim>\<open>str.maketrans(x, y, z)\<close> builds a translation table: a dictionary that sends the
  \<open>i\<close>-th character of \<open>x\<close> to the \<open>i\<close>-th character of \<open>y\<close>, and then every
  character of \<open>z\<close> to \<^verbatim>\<open>None\<close>. It raises \<^verbatim>\<open>ValueError\<close> when \<open>x\<close> and \<open>y\<close> differ in
  length. The table is a map whose values are \<open>Some d\<close> (replace by \<open>d\<close>) or \<open>None\<close>
  (delete); entries are written in order, so a later one overrides an earlier one.
\<close>

type_synonym table = "char \<rightharpoonup> char option"

definition maketrans :: "string \<Rightarrow> string \<Rightarrow> string \<Rightarrow> py_error + table" where
  "maketrans x y z =
     (if length x \<noteq> length y then Inl ValueError
      else Inr (fold (\<lambda>c m. m(c \<mapsto> None)) z
                 (fold (\<lambda>(a, b) m. m(a \<mapsto> Some b)) (zip x y) Map.empty)))"

text \<open>
  \<^verbatim>\<open>s.translate(table)\<close> looks every character up: a character without an entry is
  kept, one mapped to \<^verbatim>\<open>None\<close> is dropped, one mapped to a character is replaced.
\<close>

fun translate :: "string \<Rightarrow> table \<Rightarrow> string" where
  "translate [] t = []"
| "translate (c # cs) t =
     (case t c of
        None \<Rightarrow> c # translate cs t
      | Some None \<Rightarrow> translate cs t
      | Some (Some d) \<Rightarrow> d # translate cs t)"

subsection \<open>\<^verbatim>\<open>load_data\<close>\<close>

text \<open>
  \<^verbatim>\<open>labels = [self.data["target_names"][x] for x in self.data["target"]]\<close>:
  the comprehension stops at the first index that raises.
\<close>

fun labels_of :: "string list \<Rightarrow> int list \<Rightarrow> py_error + string list" where
  "labels_of names [] = Inr []"
| "labels_of names (x # xs) =
     (case getitem names x of
        Inl e \<Rightarrow> Inl e
      | Inr l \<Rightarrow> (case labels_of names xs of
                   Inl e \<Rightarrow> Inl e
                 | Inr ls \<Rightarrow> Inr (l # ls)))"

text \<open>
  The preprocessing loop: \<^verbatim>\<open>processed_data\<close> starts empty, and every document, in order,
  is translated with a freshly made table and appended.
\<close>

fun preprocessing :: "string list \<Rightarrow> string list \<Rightarrow> py_error + string list" where
  "preprocessing [] processed_data = Inr processed_data"
| "preprocessing (s # ss) processed_data =
     (case maketrans [] [] punctuation of
        Inl e \<Rightarrow> Inl e
      | Inr t \<Rightarrow> preprocessing ss (processed_data @ [translate s t]))"

definition load_data :: "TwentyNewsDataset \<Rightarrow> py_error + (string list \<times> string list)" where
  "load_data self =
     (case labels_of (target_names (self_data self)) (target (self_data self)) of
        Inl e \<Rightarrow> Inl e
      | Inr labels \<Rightarrow>
          (case preprocessing (data (self_data self)) [] of
             Inl e \<Rightarrow> Inl e
           | Inr processed_data \<Rightarrow> Inr (processed_data, labels)))"

subsection \<open>What the result is meant to be\<close>

text \<open>
  The document with every punctuation character removed, all other characters kept in
  their order; this is the description \<^verbatim>\<open>load_data\<close> is compared with.
\<close>

definition without_punctuation :: "string \<Rightarrow> string" where
  "without_punctuation s = filter (\<lambda>c. c \<notin> set punctuation) s"

text \<open>
  What \<^verbatim>\<open>fetch_20newsgroups\<close> guarantees of the bunch: one target per document, and
  every target an index into the class names.
\<close>

definition fetched :: "bunch \<Rightarrow> bool" where
  "fetched b \<longleftrightarrow>
     length (target b) = length (data b) \<and>
     list_all (\<lambda>t. 0 \<le> t \<and> t < int (length (target_names b))) (target b)"

section \<open>The custom metric \<^verbatim>\<open>func1\<close>\<close>

text \<open>
  \<^verbatim>\<open>def func1(y_true, y_pred): return sum(y_true == y_pred)\<close>

  The two arguments are one-dimensional numpy arrays of class labels (the notebook's
  labels are the integers 0 and 1). On arrays \<^verbatim>\<open>==\<close> compares element by element; an
  array of length one is broadcast against the other; two lengths that do not
  broadcast raise (older numpy releases return the scalar \<^verbatim>\<open>False\<close> instead, on which
  \<^verbatim>\<open>sum\<close> raises in turn).
\<close>

definition array_eq :: "int list \<Rightarrow> int list \<Rightarrow> py_error + bool list" where
  "array_eq a b =
     (if length a = length b then Inr (map (\<lambda>(x, y). x = y) (zip a b))
      else if length a = 1 then Inr (map (\<lambda>y. hd a = y) b)
      else if length b = 1 then Inr (map (\<lambda>x. x = hd b) a)
      else Inl ValueError)"

text \<open>
  The builtin \<^verbatim>\<open>sum\<close> starts from \<open>0\<close> and adds the elements from left to right;
  \<^verbatim>\<open>True\<close> counts as \<open>1\<close> and \<^verbatim>\<open>False\<close> as \<open>0\<close>.
\<close>

definition py_sum :: "bool list \<Rightarrow> int" where
  "py_sum bs = foldl (\<lambda>acc b. acc + (if b then 1 else 0)) 0 bs"

definition func1 :: "int list \<Rightarrow> int list \<Rightarrow> py_error + int" where
  "func1 y_true y_pred =
     (case array_eq y_true y_pred of
        Inl e \<Rightarrow> Inl e
      | Inr bs \<Rightarrow> Inr (py_sum bs))"

section \<open>Properties of \<^verbatim>\<open>load_data\<close>\<close>

lemma delete_entries_lookup:
  "fold (\<lambda>c m. m(c \<mapsto> None)) z m0 c = (if c \<in> set z then Some None else m0 c)"
  by (induction z arbitrary: m0) auto

lemma maketrans_delete_only:
  "maketrans [] [] z = Inr (fold (\<lambda>c m. m(c \<mapsto> None)) z Map.empty)"
  by (simp add: maketrans_def)

lemma translate_by_lookup:
  "(\<And>c. t c = (if c \<in> set z then Some None else None)) \<Longrightarrow>
   translate s t = filter (\<lambda>c. c \<notin> set z) s"
  by (induction s) simp_all

lemma translate_delete_only:
  "translate s (fold (\<lambda>c m. m(c \<mapsto> None)) z Map.empty) = filter (\<lambda>c. c \<notin> set z) s"
  by (rule translate_by_lookup) (rule delete_entries_lookup [where ?m0.0 = Map.empty])

lemma preprocessing_map:
  "preprocessing ss acc = Inr (acc @ map without_punctuation ss)"
  by (induction ss arbitrary: acc)
     (simp_all add: maketrans_delete_only translate_delete_only without_punctuation_def)

lemma getitem_in_range:
  "0 \<le> t \<Longrightarrow> t < int (length xs) \<Longrightarrow> getitem xs t = Inr (xs ! nat t)"
  by (simp add: getitem_def)

lemma labels_of_in_range:
  "list_all (\<lambda>t. 0 \<le> t \<and> t < int (length names)) ts \<Longrightarrow>
   labels_of names ts = Inr (map (\<lambda>t. names ! nat t) ts)"
  by (induction ts) (simp_all add: getitem_in_range)

lemma labels_of_length:
  "labels_of names ts = Inr ls \<Longrightarrow> length ls = length ts"
  by (induction ts arbitrary: ls) (auto split: sum.splits)

lemma labels_of_nth:
  "labels_of names ts = Inr ls \<Longrightarrow> i < length ts \<Longrightarrow> getitem names (ts ! i) = Inr (ls ! i)"
proof (induction ts arbitrary: ls i)
  case Nil
  then show ?case by simp
next
  case (Cons t ts)
  from Cons.prems(1) obtain l ls' where
    l: "getitem names t = Inr l" and ls': "labels_of names ts = Inr ls'" and ls: "ls = l # ls'"
    by (auto split: sum.splits)
  show ?case
  proof (cases i)
    case 0
    with l ls show ?thesis by simp
  next
    case (Suc j)
    with Cons.prems(2) have "j < length ts" by simp
    from Cons.IH [OF ls' this] Suc ls show ?thesis by simp
  qed
qed

lemma labels_of_raises:
  "\<not> list_all (\<lambda>t. - int (length names) \<le> t \<and> t < int (length names)) ts \<Longrightarrow>
   labels_of names ts = Inl IndexError"
  by (induction ts) (auto simp: getitem_def split: sum.splits)

section \<open>Properties of \<^verbatim>\<open>func1\<close>\<close>

lemma foldl_count_shift:
  "foldl (\<lambda>acc b. acc + (if b then 1 else 0)) k bs = k + int (length (filter id bs))"
  by (induction bs arbitrary: k) simp_all

lemma py_sum_count: "py_sum bs = int (length (filter id bs))"
  by (simp add: py_sum_def foldl_count_shift)

lemma agreeing_indices:
  "length a = length b \<Longrightarrow>
   length (filter id (map (\<lambda>(x, y). x = y) (zip a b))) = card {i. i < length a \<and> a ! i = b ! i}"
proof (induction a b rule: list_induct2)
  case Nil
  then show ?case by simp
next
  case (Cons x xs y ys)
  let ?S = "{i. i < length xs \<and> xs ! i = ys ! i}"
  let ?T = "{i. i < length (x # xs) \<and> (x # xs) ! i = (y # ys) ! i}"
  have fin: "finite ?S" by simp
  have T: "?T = (if x = y then {0} else {}) \<union> Suc ` ?S"
  proof (rule set_eqI)
    fix i show "i \<in> ?T \<longleftrightarrow> i \<in> (if x = y then {0} else {}) \<union> Suc ` ?S"
      by (cases i) auto
  qed
  have img: "card (Suc ` ?S) = card ?S"
    by (rule card_image) (simp add: inj_on_def)
  have ins: "card ({0} \<union> Suc ` ?S) = Suc (card (Suc ` ?S))"
    using fin by (subst card_Un_disjoint) auto
  have "card ?T = (if x = y then Suc (card ?S) else card ?S)"
    unfolding T using img ins by simp
  with Cons.IH show ?case by simp
qed

section \<open>The claims\<close>

text \<open>
  Claim C9. On a bunch as \<^verbatim>\<open>fetch_20newsgroups\<close> delivers it, \<^verbatim>\<open>load_data\<close> returns (it does
  not raise) a pair \<open>(processed_data, labels)\<close> of two lists, each as long as the list of
  fetched documents; the \<open>i\<close>-th processed document is the \<open>i\<close>-th document with every
  character of \<^verbatim>\<open>string.punctuation\<close> removed and the other characters unchanged and in
  order; and the \<open>i\<close>-th label is \<^verbatim>\<open>target_names\<close> indexed by the \<open>i\<close>-th target.
\<close>

theorem load_data_spec:
  assumes "fetched (self_data self)"
  shows "\<exists>processed_data labels.
           load_data self = Inr (processed_data, labels) \<and>
           length processed_data = length (data (self_data self)) \<and>
           length labels = length (data (self_data self)) \<and>
           (\<forall>i < length (data (self_data self)).
              processed_data ! i = without_punctuation (data (self_data self) ! i)) \<and>
           (\<forall>i < length (data (self_data self)).
              getitem (target_names (self_data self)) (target (self_data self) ! i)
                = Inr (labels ! i))"
proof -
  let ?b = "self_data self"
  from assms have len: "length (target ?b) = length (data ?b)"
    and rng: "list_all (\<lambda>t. 0 \<le> t \<and> t < int (length (target_names ?b))) (target ?b)"
    by (simp_all add: fetched_def)
  define labels where "labels = map (\<lambda>t. target_names ?b ! nat t) (target ?b)"
  define processed_data where "processed_data = map without_punctuation (data ?b)"
  have lab: "labels_of (target_names ?b) (target ?b) = Inr labels"
    unfolding labels_def using rng by (rule labels_of_in_range)
  have pre: "preprocessing (data ?b) [] = Inr processed_data"
    unfolding processed_data_def by (simp add: preprocessing_map)
  have ret: "load_data self = Inr (processed_data, labels)"
    by (simp add: load_data_def lab pre)
  have l1: "length processed_data = length (data ?b)"
    by (simp add: processed_data_def)
  have l2: "length labels = length (data ?b)"
    using labels_of_length [OF lab] len by simp
  have p: "\<forall>i < length (data ?b). processed_data ! i = without_punctuation (data ?b ! i)"
    by (simp add: processed_data_def)
  have g: "\<forall>i < length (data ?b).
             getitem (target_names ?b) (target ?b ! i) = Inr (labels ! i)"
    using labels_of_nth [OF lab] len by simp
  from ret l1 l2 p g show ?thesis by blast
qed

theorem load_data_spec_witness:
  "fetched \<lparr>data = [''Hello, world!'', ''a-b_c''], target = [1, 0],
            target_names = [''rec.autos'', ''sci.med'']\<rparr> \<and>
   load_data \<lparr>self_data =
      \<lparr>data = [''Hello, world!'', ''a-b_c''], target = [1, 0],
       target_names = [''rec.autos'', ''sci.med'']\<rparr>\<rparr>
     = Inr ([''Hello world'', ''abc''], [''sci.med'', ''rec.autos''])"
proof -
  let ?b = "\<lparr>data = [''Hello, world!'', ''a-b_c''], target = [1, 0],
              target_names = [''rec.autos'', ''sci.med'']\<rparr>"
  have f: "fetched (self_data \<lparr>self_data = ?b\<rparr>)"
    by (simp add: fetched_def)
  from load_data_spec [OF f] obtain p l where
    ret: "load_data \<lparr>self_data = ?b\<rparr> = Inr (p, l)"
    and lp: "length p = 2" and ll: "length l = 2"
    and pi: "\<forall>i < 2. p ! i = without_punctuation ([''Hello, world!'', ''a-b_c''] ! i)"
    and li: "\<forall>i < 2. getitem [''rec.autos'', ''sci.med''] ([1, 0] ! i) = Inr (l ! i)"
    by auto
  have two: "\<And>xs :: string list. length xs = 2 \<Longrightarrow> xs = [xs ! 0, xs ! 1]"
    by (auto simp: nth_equalityI less_Suc_eq numeral_2_eq_2 length_Suc_conv)
  from pi have "p ! 0 = ''Hello world''" "p ! 1 = ''abc''"
    by (simp_all add: without_punctuation_def punctuation_def)
  with two [OF lp] have p: "p = [''Hello world'', ''abc'']" by simp
  from li [rule_format, of 0] li [rule_format, of 1]
  have "l ! 0 = ''sci.med''" "l ! 1 = ''rec.autos''"
    by (simp_all add: getitem_def)
  with two [OF ll] have l: "l = [''sci.med'', ''rec.autos'']" by simp
  from f ret p l show ?thesis by simp
qed

text \<open>
  Claim C10. On two label vectors of equal length, \<^verbatim>\<open>func1\<close> returns the number of
  indices at which the two vectors agree; \<^verbatim>\<open>func1(y, y)\<close> is the length of \<open>y\<close>; and the
  result never exceeds the length of the vectors.
\<close>

theorem func1_counts_agreements:
  assumes "length y_true = length y_pred"
  shows "func1 y_true y_pred
           = Inr (int (card {i. i < length y_true \<and> y_true ! i = y_pred ! i})) \<and>
         func1 y_true y_true = Inr (int (length y_true)) \<and>
         (\<exists>n. func1 y_true y_pred = Inr n \<and> 0 \<le> n \<and> n \<le> int (length y_true))"
proof -
  let ?A = "{i. i < length y_true \<and> y_true ! i = y_pred ! i}"
  have run: "func1 a b = Inr (py_sum (map (\<lambda>(x, y). x = y) (zip a b)))"
    if "length a = length b" for a b :: "int list"
    using that by (simp add: func1_def array_eq_def)
  have count: "func1 y_true y_pred = Inr (int (card ?A))"
    by (simp only: run [OF assms] py_sum_count agreeing_indices [OF assms])
  have "func1 y_true y_true = Inr (int (card {i. i < length y_true \<and> y_true ! i = y_true ! i}))"
    by (simp only: run [OF refl] py_sum_count agreeing_indices [OF refl])
  then have self: "func1 y_true y_true = Inr (int (length y_true))"
    by simp
  have "?A \<subseteq> {..<length y_true}" by auto
  then have "card ?A \<le> card {..<length y_true}"
    by (rule card_mono [rotated]) simp
  then have bound: "int (card ?A) \<le> int (length y_true)" by simp
  from count self bound show ?thesis by simp
qed

theorem func1_counts_agreements_witness:
  "length [0, 1, 1, 0 :: int] = length [0, 1, 0, 0 :: int] \<and>
   func1 [0, 1, 1, 0] [0, 1, 0, 0] = Inr 3 \<and>
   card {i. i < length [0, 1, 1, 0 :: int] \<and> [0, 1, 1, 0 :: int] ! i = [0, 1, 0, 0] ! i} = 3 \<and>
   func1 [0, 1, 1, 0] [0, 1, 1, 0] = Inr 4"
proof -
  have h: "length [0, 1, 1, 0 :: int] = length [0, 1, 0, 0 :: int]" by simp
  have v: "func1 [0, 1, 1, 0] [0, 1, 0, 0] = Inr 3"
    by (simp add: func1_def array_eq_def py_sum_def)
  from func1_counts_agreements [OF h] v h show ?thesis by simp
qed

end
